theory Spec2Isabelle
  imports Main "HOL-Library.Sublist"
begin

section \<open>The host environment\<close>

text \<open>
  The filtering and pivot code of \<^verbatim>\<open>docs/app.js\<close> calls services of the JavaScript engine
  whose definitions are not part of the repository: the \<^verbatim>\<open>RegExp\<close> constructor (with flag
  \<^verbatim>\<open>'i'\<close>), \<^verbatim>\<open>String.prototype.toLowerCase\<close>, \<^verbatim>\<open>String.prototype.localeCompare\<close> with the
  options \<^verbatim>\<open>{numeric: true, sensitivity: 'base'}\<close>, and the conversion to a string of the
  properties that every object inherits from \<^verbatim>\<open>Object.prototype\<close>. They are parameters of
  the model, collected in a record; every general theorem below holds for every host.

  The exceptions of the modelled code are values of \<open>exn\<close>: the \<^verbatim>\<open>SyntaxError\<close> of the
  \<^verbatim>\<open>RegExp\<close> constructor, the \<^verbatim>\<open>TypeError\<close> of a call of \<^verbatim>\<open>undefined\<close> or of a method of
  \<^verbatim>\<open>undefined\<close>, and the \<^verbatim>\<open>Error\<close> with which \<^verbatim>\<open>parseXMLFile\<close> rejects. A function that can
  throw returns \<open>exn + 'a\<close>, with \<open>Inl\<close> for the exception.

  The constructor either throws a \<^verbatim>\<open>SyntaxError\<close> (the pattern is malformed) or returns
  a regular expression, which the code only ever uses through \<^verbatim>\<open>test\<close>: the model returns
  the error or the predicate that \<^verbatim>\<open>test\<close> computes. No regular expression in the code has
  the flags \<^verbatim>\<open>g\<close> or \<^verbatim>\<open>y\<close>, so \<^verbatim>\<open>test\<close> has no state.
\<close>

datatype exn = SyntaxError | TypeError | Error

record host =
  RegExp_i :: "string \<Rightarrow> exn + (string \<Rightarrow> bool)"
  toLowerCase :: "string \<Rightarrow> string"
  localeCompare :: "string \<Rightarrow> string \<Rightarrow> int"
  inheritedToString :: "string \<Rightarrow> string"

section \<open>Data model\<close>

text \<open>
  A record of the dataset is a JavaScript object built by \<^verbatim>\<open>extractDataFromXML\<close>: a plain
  object whose own properties map field names (the tag names of the XML elements) to
  trimmed strings. Its own properties are a partial map.
\<close>

type_synonym jsrecord = "string \<rightharpoonup> string"

text \<open>
  The values that \<^verbatim>\<open>record[name]\<close> can have: \<^verbatim>\<open>undefined\<close>, a string, or the property of
  that name that the object inherits from \<^verbatim>\<open>Object.prototype\<close> (a function, or for
  \<^verbatim>\<open>__proto__\<close> the prototype object itself). All records share one prototype, so two
  inherited values are the same object exactly when their names are equal.
\<close>

datatype jsval = Undefined | Str string | Inherited string

text \<open>The property names of \<^verbatim>\<open>Object.prototype\<close> in ECMAScript, with those of its Annex B.\<close>

definition objectPrototypeNames :: "string list" where
  "objectPrototypeNames =
     [''constructor'', ''hasOwnProperty'', ''isPrototypeOf'', ''propertyIsEnumerable'',
      ''toLocaleString'', ''toString'', ''valueOf'', ''__proto__'',
      ''__defineGetter__'', ''__defineSetter__'', ''__lookupGetter__'', ''__lookupSetter__'']"

text \<open>
  \<^verbatim>\<open>record[name]\<close>: the own property if there is one, else the inherited one, else
  \<^verbatim>\<open>undefined\<close>. The assignment \<^verbatim>\<open>record['__proto__'] = fieldValue\<close> of line 141 runs the
  inherited setter, which ignores a string and creates no property: that name always
  reads as the prototype object.
\<close>

definition getProp :: "jsrecord \<Rightarrow> string \<Rightarrow> jsval" where
  "getProp record name =
     (if name = ''__proto__'' then Inherited name
      else case record name of
             Some v \<Rightarrow> Str v
           | None \<Rightarrow> if name \<in> set objectPrototypeNames then Inherited name else Undefined)"

text \<open>\<^verbatim>\<open>String(v)\<close>, also the conversion inside a template string.\<close>

definition toStr :: "host \<Rightarrow> jsval \<Rightarrow> string" where
  "toStr h v =
     (case v of
        Undefined \<Rightarrow> ''undefined''
      | Str s \<Rightarrow> s
      | Inherited name \<Rightarrow> inheritedToString h name)"

text \<open>
  A filter condition, as \<^verbatim>\<open>addFilterCondition\<close> creates it and the handlers of
  \<^verbatim>\<open>attachFilterEventListeners\<close> update it. The properties \<^verbatim>\<open>id\<close>, \<^verbatim>\<open>value\<close> and
  \<^verbatim>\<open>values\<close> are called \<open>cond_id\<close>, \<open>cond_value\<close> and \<open>cond_values\<close> here. The operator is
  the string the code dispatches on. \<^verbatim>\<open>values\<close> always holds an array (initially empty,
  later the selected options), so the test \<^verbatim>\<open>!condition.values\<close> never fires and the
  model has the array only.
\<close>

record condition =
  cond_id :: nat
  field :: string
  operator :: string
  cond_value :: string
  cond_values :: "string list"
  useRegex :: bool
  negate :: bool

record filterGroup =
  group_id :: nat
  logic :: string
  conditions :: "condition list"

section \<open>Condition evaluator\<close>

text \<open>
  The \<^verbatim>\<open>switch\<close> of the regex mode (lines 310 to 328). The pattern is compiled before the
  dispatch, so a malformed pattern throws whatever the operator is; \<^verbatim>\<open>starts-with\<close> and
  \<^verbatim>\<open>ends-with\<close> compile a second, anchored pattern.
\<close>

definition regexBranch :: "host \<Rightarrow> string \<Rightarrow> string \<Rightarrow> string \<Rightarrow> exn + bool" where
  "regexBranch h testValue opr fieldValue =
     (case RegExp_i h testValue of
        Inl e \<Rightarrow> Inl e
      | Inr regex \<Rightarrow>
          if opr = ''equals'' \<or> opr = ''contains'' then Inr (regex fieldValue)
          else if opr = ''not-equals'' \<or> opr = ''not-contains'' then Inr (\<not> regex fieldValue)
          else if opr = ''starts-with'' then
            (case RegExp_i h (''^'' @ testValue) of
               Inl e \<Rightarrow> Inl e
             | Inr anchored \<Rightarrow> Inr (anchored fieldValue))
          else if opr = ''ends-with'' then
            (case RegExp_i h (testValue @ ''$'') of
               Inl e \<Rightarrow> Inl e
             | Inr anchored \<Rightarrow> Inr (anchored fieldValue))
          else Inr True)"

text \<open>
  The \<^verbatim>\<open>switch\<close> of the plain mode (lines 330 to 360): \<^verbatim>\<open>includes\<close>, \<^verbatim>\<open>startsWith\<close> and
  \<^verbatim>\<open>endsWith\<close> are \<open>sublist\<close>, \<open>prefix\<close> and \<open>suffix\<close> on the lowered strings.
\<close>

definition plainBranch :: "host \<Rightarrow> string \<Rightarrow> string \<Rightarrow> string \<Rightarrow> bool" where
  "plainBranch h testValue opr fieldValue =
     (let fieldLower = toLowerCase h fieldValue;
          testLower = toLowerCase h testValue
      in if opr = ''equals'' then fieldLower = testLower
         else if opr = ''not-equals'' then fieldLower \<noteq> testLower
         else if opr = ''contains'' then sublist testLower fieldLower
         else if opr = ''not-contains'' then \<not> sublist testLower fieldLower
         else if opr = ''starts-with'' then prefix testLower fieldLower
         else if opr = ''ends-with'' then suffix testLower fieldLower
         else if opr = ''empty'' then fieldValue = ''''
         else if opr = ''not-empty'' then fieldValue \<noteq> ''''
         else True)"

text \<open>The body of the \<^verbatim>\<open>try\<close> block: its value, or the exception it throws.\<close>

definition tryBlock :: "host \<Rightarrow> condition \<Rightarrow> string \<Rightarrow> exn + bool" where
  "tryBlock h c fieldValue =
     (if useRegex c then regexBranch h (cond_value c) (operator c) fieldValue
      else Inr (plainBranch h (cond_value c) (operator c) fieldValue))"

text \<open>
  \<^verbatim>\<open>String(record[condition.field] || '')\<close> (line 287): \<^verbatim>\<open>undefined\<close> and the empty string
  are falsy and read as the empty string; an inherited property is truthy and is
  converted to its string.
\<close>

definition fieldValueOf :: "host \<Rightarrow> jsrecord \<Rightarrow> string \<Rightarrow> string" where
  "fieldValueOf h record f =
     (case getProp record f of
        Undefined \<Rightarrow> ''''
      | Str v \<Rightarrow> v
      | Inherited name \<Rightarrow> toStr h (Inherited name))"

text \<open>
  Lines 287 to 367: the variable \<^verbatim>\<open>result\<close> when line 369 is reached, which is the raw
  result of the operator before negation, and the errors that have been passed to
  \<^verbatim>\<open>console.error\<close>. The \<^verbatim>\<open>catch\<close> clause logs the exception of the \<^verbatim>\<open>try\<close> block (line
  363) and turns it into \<^verbatim>\<open>false\<close> (line 364); nothing else of the function logs.
\<close>

definition resultAndLog :: "host \<Rightarrow> jsrecord \<Rightarrow> condition \<Rightarrow> (exn + bool) \<times> exn list" where
  "resultAndLog h record c =
     (let fieldValue = fieldValueOf h record (field c)
      in if operator c = ''in-list'' then
           (if cond_values c = [] then (Inr True, [])
            else (Inr (list_ex (\<lambda>val. toLowerCase h fieldValue = toLowerCase h val)
                         (cond_values c)), []))
         else
           (let testValue = cond_value c
            in if testValue = '''' \<and> operator c \<noteq> ''empty'' \<and> operator c \<noteq> ''not-empty''
               then (Inr True, [])
               else (case tryBlock h c fieldValue of
                       Inl error \<Rightarrow> (Inr False, [error])
                     | Inr b \<Rightarrow> (Inr b, []))))"

definition rawResult :: "host \<Rightarrow> jsrecord \<Rightarrow> condition \<Rightarrow> exn + bool" where
  "rawResult h record c = fst (resultAndLog h record c)"

definition consoleErrors :: "host \<Rightarrow> jsrecord \<Rightarrow> condition \<Rightarrow> exn list" where
  "consoleErrors h record c = snd (resultAndLog h record c)"

text \<open>\<^verbatim>\<open>evaluateCondition\<close>: the raw result, negated when \<^verbatim>\<open>condition.negate\<close> is set.\<close>

definition evaluateCondition :: "host \<Rightarrow> jsrecord \<Rightarrow> condition \<Rightarrow> exn + bool" where
  "evaluateCondition h record c =
     (case rawResult h record c of
        Inl e \<Rightarrow> Inl e
      | Inr result \<Rightarrow> Inr (if negate c then \<not> result else result))"

section \<open>Filter group evaluator\<close>

text \<open>
  \<^verbatim>\<open>Array.prototype.every\<close>, \<^verbatim>\<open>some\<close> and \<^verbatim>\<open>filter\<close> with a callback that may throw: they
  call it on the elements from left to right, \<^verbatim>\<open>every\<close> stops at the first \<^verbatim>\<open>false\<close>,
  \<^verbatim>\<open>some\<close> at the first \<^verbatim>\<open>true\<close>, and an exception of the callback ends the loop.
\<close>

fun every_js :: "('a \<Rightarrow> exn + bool) \<Rightarrow> 'a list \<Rightarrow> exn + bool" where
  "every_js f [] = Inr True"
| "every_js f (x # xs) =
     (case f x of Inl e \<Rightarrow> Inl e | Inr b \<Rightarrow> if b then every_js f xs else Inr False)"

fun some_js :: "('a \<Rightarrow> exn + bool) \<Rightarrow> 'a list \<Rightarrow> exn + bool" where
  "some_js f [] = Inr False"
| "some_js f (x # xs) =
     (case f x of Inl e \<Rightarrow> Inl e | Inr b \<Rightarrow> if b then Inr True else some_js f xs)"

fun filter_js :: "('a \<Rightarrow> exn + bool) \<Rightarrow> 'a list \<Rightarrow> exn + 'a list" where
  "filter_js f [] = Inr []"
| "filter_js f (x # xs) =
     (case f x of
        Inl e \<Rightarrow> Inl e
      | Inr b \<Rightarrow>
          (case filter_js f xs of
             Inl e \<Rightarrow> Inl e
           | Inr ys \<Rightarrow> Inr (if b then x # ys else ys)))"

text \<open>\<^verbatim>\<open>evaluateFilterGroup\<close>: every logic other than \<^verbatim>\<open>'AND'\<close> takes the \<^verbatim>\<open>some\<close> branch.\<close>

definition evaluateFilterGroup :: "host \<Rightarrow> jsrecord \<Rightarrow> filterGroup \<Rightarrow> exn + bool" where
  "evaluateFilterGroup h record g =
     (if length (conditions g) = 0 then Inr True
      else if logic g = ''AND'' then
        every_js (\<lambda>condition. evaluateCondition h record condition) (conditions g)
      else
        some_js (\<lambda>condition. evaluateCondition h record condition) (conditions g))"

section \<open>Session state\<close>

text \<open>
  The global \<^verbatim>\<open>state\<close> object, with the properties that the modelled functions read or
  write. \<^verbatim>\<open>fieldValuesCache\<close> is an object used as a dictionary from field names to arrays.
\<close>

record state =
  database :: "string option"
  fieldNames :: "string list"
  records :: "jsrecord list"
  filterGroups :: "filterGroup list"
  fieldValuesCache :: "string \<rightharpoonup> string list"

text \<open>\<^verbatim>\<open>applyFilters\<close> reads the groups from the state.\<close>

definition applyFilters :: "host \<Rightarrow> state \<Rightarrow> jsrecord list \<Rightarrow> exn + jsrecord list" where
  "applyFilters h s recs =
     (if length (filterGroups s) = 0 then Inr recs
      else filter_js
             (\<lambda>record. some_js (\<lambda>group. evaluateFilterGroup h record group) (filterGroups s))
             recs)"

section \<open>Natural sort\<close>

text \<open>
  \<^verbatim>\<open>Array.prototype.forEach\<close> with a callback that updates the variables it closes over
  and may throw: the variables are the state of the loop.
\<close>

fun forEach_js :: "('s \<Rightarrow> 'a \<Rightarrow> exn + 's) \<Rightarrow> 's \<Rightarrow> 'a list \<Rightarrow> exn + 's" where
  "forEach_js f s [] = Inr s"
| "forEach_js f s (x # xs) = (case f s x of Inl e \<Rightarrow> Inl e | Inr s1 \<Rightarrow> forEach_js f s1 xs)"

text \<open>
  \<^verbatim>\<open>naturalSort(a, b)\<close> is \<^verbatim>\<open>a.localeCompare(b, ...)\<close>: the method exists when \<^verbatim>\<open>a\<close> is a
  string, and \<^verbatim>\<open>b\<close> is then converted to a string; on an inherited function or object
  \<^verbatim>\<open>a.localeCompare\<close> is \<^verbatim>\<open>undefined\<close> and the call throws a \<^verbatim>\<open>TypeError\<close>.
\<close>

definition naturalSort :: "host \<Rightarrow> jsval \<Rightarrow> jsval \<Rightarrow> exn + int" where
  "naturalSort h a b =
     (case a of
        Str s \<Rightarrow> Inr (localeCompare h s (toStr h b))
      | Undefined \<Rightarrow> Inl TypeError
      | Inherited name \<Rightarrow> Inl TypeError)"

text \<open>
  \<^verbatim>\<open>Array.prototype.sort\<close> with a comparator is modelled as the stable insertion sort that
  passes the element it inserts as the first argument, and an exception of the
  comparator ends the sort. ECMAScript leaves the sequence of comparator calls to the
  engine; for a comparator that is a consistent ordering and does not throw, every
  engine returns the list that this sort returns.
\<close>

fun insert_js :: "('a \<Rightarrow> 'a \<Rightarrow> exn + int) \<Rightarrow> 'a \<Rightarrow> 'a list \<Rightarrow> exn + 'a list" where
  "insert_js cmp x [] = Inr [x]"
| "insert_js cmp x (y # ys) =
     (case cmp x y of
        Inl e \<Rightarrow> Inl e
      | Inr order \<Rightarrow>
          if order < 0 then Inr (x # y # ys)
          else (case insert_js cmp x ys of Inl e \<Rightarrow> Inl e | Inr zs \<Rightarrow> Inr (y # zs)))"

definition sort_js :: "('a \<Rightarrow> 'a \<Rightarrow> exn + int) \<Rightarrow> 'a list \<Rightarrow> exn + 'a list" where
  "sort_js cmp xs = forEach_js (\<lambda>sorted x. insert_js cmp x sorted) [] xs"

section \<open>Field value index\<close>

text \<open>
  A \<^verbatim>\<open>Set\<close> is the list of its elements in insertion order, which is the order
  \<^verbatim>\<open>Array.from\<close> reads them in.
\<close>

definition set_add :: "'a \<Rightarrow> 'a list \<Rightarrow> 'a list" where
  "set_add x xs = (if x \<in> set xs then xs else xs @ [x])"

text \<open>
  The loop of \<^verbatim>\<open>getFieldValues\<close> (lines 248 to 254): the strings of the values of a field
  that are neither \<^verbatim>\<open>undefined\<close> nor empty, each once.
\<close>

definition collectValues :: "host \<Rightarrow> string \<Rightarrow> jsrecord list \<Rightarrow> string list" where
  "collectValues h fieldName recs =
     foldl (\<lambda>valuesSet record.
              case getProp record fieldName of
                Undefined \<Rightarrow> valuesSet
              | Str v \<Rightarrow> if v \<noteq> '''' then set_add v valuesSet else valuesSet
              | Inherited name \<Rightarrow> set_add (toStr h (Inherited name)) valuesSet)
           [] recs"

text \<open>
  What \<^verbatim>\<open>getFieldValues\<close> returns: an array of strings, or a property that the cache object
  inherits.
\<close>

datatype fieldValues = ValueList "string list" | InheritedObject string

text \<open>
  \<^verbatim>\<open>state.fieldValuesCache[fieldName]\<close>, where the cache is a plain object (line 33) and
  \<open>cache\<close> the map of its own properties: \<open>None\<close> is \<^verbatim>\<open>undefined\<close>. Every other value is
  truthy, an array also when it is empty.
\<close>

definition cacheGet :: "(string \<rightharpoonup> string list) \<Rightarrow> string \<Rightarrow> fieldValues option" where
  "cacheGet cache fieldName =
     (if fieldName = ''__proto__'' then Some (InheritedObject fieldName)
      else case cache fieldName of
             Some cached \<Rightarrow> Some (ValueList cached)
           | None \<Rightarrow>
               if fieldName \<in> set objectPrototypeNames then Some (InheritedObject fieldName)
               else None)"

text \<open>
  \<^verbatim>\<open>getFieldValues\<close> returns its value or exception, and the state, whose cache it may
  have extended.
\<close>

definition getFieldValues :: "host \<Rightarrow> string \<Rightarrow> state \<Rightarrow> (exn + fieldValues) \<times> state" where
  "getFieldValues h fieldName s =
     (case cacheGet (fieldValuesCache s) fieldName of
        Some cached \<Rightarrow> (Inr cached, s)
      | None \<Rightarrow>
          (case sort_js (\<lambda>a b. naturalSort h (Str a) (Str b))
                  (collectValues h fieldName (records s)) of
             Inl e \<Rightarrow> (Inl e, s)
           | Inr sortedValues \<Rightarrow>
               (Inr (ValueList sortedValues),
                s\<lparr>fieldValuesCache := (fieldValuesCache s)(fieldName \<mapsto> sortedValues)\<rparr>)))"

text \<open>
  \<^verbatim>\<open>handleFileSelect\<close>, as a function of the selected file (its name, if any) and of the
  outcome of \<^verbatim>\<open>parseXMLFile\<close> followed by \<^verbatim>\<open>extractDataFromXML\<close>: the exception caught at
  line 956, or the records and the field names. The writes to the document are left out.
  The state changes only when the file holds at least one record, and then in
  \<^verbatim>\<open>database\<close>, \<^verbatim>\<open>records\<close> and \<^verbatim>\<open>fields\<close> (lines 940 to 942; \<^verbatim>\<open>fields\<close> is \<open>fieldNames\<close> here).
\<close>

definition handleFileSelect ::
  "string option \<Rightarrow> exn + (jsrecord list \<times> string list) \<Rightarrow> state \<Rightarrow> state" where
  "handleFileSelect file parsed s =
     (case file of
        None \<Rightarrow> s
      | Some name \<Rightarrow>
          (case parsed of
             Inl error \<Rightarrow> s
           | Inr (recs, flds) \<Rightarrow>
               if length recs = 0 then s
               else s\<lparr>database := Some name, records := recs, fieldNames := flds\<rparr>))"

section \<open>Pivot aggregator\<close>

text \<open>
  \<^verbatim>\<open>record[rowField] || '(empty)'\<close> (lines 164 and 165): \<^verbatim>\<open>undefined\<close> and the empty string
  become the placeholder; an inherited property is truthy and stays.
\<close>

definition cellValue :: "jsrecord \<Rightarrow> string \<Rightarrow> jsval" where
  "cellValue record f =
     (case getProp record f of
        Undefined \<Rightarrow> Str ''(empty)''
      | Str v \<Rightarrow> if v = '''' then Str ''(empty)'' else Str v
      | Inherited name \<Rightarrow> Inherited name)"

text \<open>The key of a bucket, the template string of lines 170, 654 and 682.\<close>

definition pivotKey :: "host \<Rightarrow> jsval \<Rightarrow> jsval \<Rightarrow> string" where
  "pivotKey h rowVal colVal = toStr h rowVal @ ''|||'' @ toStr h colVal"

definition recordKey :: "host \<Rightarrow> string \<Rightarrow> string \<Rightarrow> jsrecord \<Rightarrow> string" where
  "recordKey h rowF colF record = pivotKey h (cellValue record rowF) (cellValue record colF)"

text \<open>
  The \<^verbatim>\<open>Map\<close> from keys to arrays of records is an association list in insertion order
  with distinct keys. \<open>push_at\<close> is \<^verbatim>\<open>pivotMap.get(key).push(record)\<close> on a key that is
  present: the array stored under the key grows in place.
\<close>

type_synonym pivotMapT = "(string \<times> jsrecord list) list"

fun push_at :: "string \<Rightarrow> jsrecord \<Rightarrow> pivotMapT \<Rightarrow> pivotMapT" where
  "push_at key record [] = []"
| "push_at key record ((k, bucket) # m) =
     (if k = key then (k, bucket @ [record]) # m else (k, bucket) # push_at key record m)"

record pivotData =
  pivotMap :: pivotMapT
  rowValues :: "jsval list"
  colValues :: "jsval list"
  rowField :: string
  colField :: string

text \<open>
  One round of the \<^verbatim>\<open>forEach\<close> of \<^verbatim>\<open>generatePivotTable\<close> (lines 164 to 174), on the map and
  the two sets. \<^verbatim>\<open>pivotMap.get(key)\<close> is \<^verbatim>\<open>undefined\<close> when the key is missing, and \<^verbatim>\<open>push\<close>
  on it would throw a \<^verbatim>\<open>TypeError\<close>.
\<close>

definition pivotStep ::
  "host \<Rightarrow> string \<Rightarrow> string \<Rightarrow> pivotMapT \<times> jsval list \<times> jsval list \<Rightarrow> jsrecord
     \<Rightarrow> exn + (pivotMapT \<times> jsval list \<times> jsval list)" where
  "pivotStep h rowF colF acc record =
     (case acc of (pm, rowSet, colSet) \<Rightarrow>
        (let rowVal = cellValue record rowF;
             colVal = cellValue record colF;
             rowSet1 = set_add rowVal rowSet;
             colSet1 = set_add colVal colSet;
             key = pivotKey h rowVal colVal;
             pm1 = (if map_of pm key = None then pm @ [(key, [])] else pm)
         in case map_of pm1 key of
              None \<Rightarrow> Inl TypeError
            | Some bucket \<Rightarrow> Inr (push_at key record pm1, rowSet1, colSet1)))"

text \<open>
  \<^verbatim>\<open>generatePivotTable\<close>: the loop, then the two sorts of lines 178 and 179, whose
  comparator may throw.
\<close>

definition generatePivotTable ::
  "host \<Rightarrow> jsrecord list \<Rightarrow> string \<Rightarrow> string \<Rightarrow> exn + pivotData" where
  "generatePivotTable h recs rowF colF =
     (case forEach_js (pivotStep h rowF colF) ([], [], []) recs of
        Inl e \<Rightarrow> Inl e
      | Inr (pm, rowSet, colSet) \<Rightarrow>
          (case sort_js (naturalSort h) rowSet of
             Inl e \<Rightarrow> Inl e
           | Inr sortedRows \<Rightarrow>
               (case sort_js (naturalSort h) colSet of
                  Inl e \<Rightarrow> Inl e
                | Inr sortedCols \<Rightarrow>
                    Inr \<lparr>pivotMap = pm,
                         rowValues = sortedRows,
                         colValues = sortedCols,
                         rowField = rowF,
                         colField = colF\<rparr>)))"

text \<open>
  The records of a cell, as \<^verbatim>\<open>renderPivotTable\<close> (lines 654 and 655) and \<^verbatim>\<open>showDatasheet\<close>
  (lines 682 and 683) read them for a row value and a column value of the table:
  \<^verbatim>\<open>pivotMap.get(key) || []\<close>.
\<close>

definition cellEntries :: "host \<Rightarrow> pivotData \<Rightarrow> jsval \<Rightarrow> jsval \<Rightarrow> jsrecord list" where
  "cellEntries h p rowVal colVal =
     (case map_of (pivotMap p) (pivotKey h rowVal colVal) of
        None \<Rightarrow> []
      | Some entries \<Rightarrow> entries)"

text \<open>The number of records over all buckets of the map.\<close>

definition bucketTotal :: "pivotMapT \<Rightarrow> nat" where
  "bucketTotal m = sum_list (map (\<lambda>(key, bucket). length bucket) m)"

section \<open>A sample host\<close>

text \<open>
  Closed instances of the theorems need a concrete host. The sample host implements a
  fragment of the engine on ASCII strings: \<open>sampleLower\<close> lowers the letters A to Z;
  \<open>sampleRegExp\<close> accepts a pattern made of letters, digits and spaces, optionally
  anchored by a leading \<^verbatim>\<open>^\<close> or a trailing \<^verbatim>\<open>$\<close>, with the meaning ECMAScript gives it
  under the flag \<^verbatim>\<open>'i'\<close>, and throws on every other pattern; \<open>sampleCompare\<close> orders the
  lowered strings by code unit. The instances below use it on inputs where it agrees
  with an ECMAScript engine: ASCII strings to lower, patterns of the fragment, the
  malformed pattern \<^verbatim>\<open>(unclosed\<close>, and single letters to sort.
\<close>

definition sampleLowerChar :: "char \<Rightarrow> char" where
  "sampleLowerChar ch =
     (case map_of (zip ''ABCDEFGHIJKLMNOPQRSTUVWXYZ'' ''abcdefghijklmnopqrstuvwxyz'') ch of
        None \<Rightarrow> ch
      | Some l \<Rightarrow> l)"

definition sampleLower :: "string \<Rightarrow> string" where
  "sampleLower s = map sampleLowerChar s"

definition literalChar :: "char \<Rightarrow> bool" where
  "literalChar ch =
     (ch \<in> set ''abcdefghijklmnopqrstuvwxyzABCDEFGHIJKLMNOPQRSTUVWXYZ0123456789 '')"

definition sampleRegExp :: "string \<Rightarrow> exn + (string \<Rightarrow> bool)" where
  "sampleRegExp p =
     (let atStart = (p \<noteq> [] \<and> hd p = CHR ''^'');
          p1 = (if atStart then tl p else p);
          atEnd = (p1 \<noteq> [] \<and> last p1 = CHR ''$'');
          body = sampleLower (if atEnd then butlast p1 else p1)
      in if list_all literalChar body then
           Inr (\<lambda>s. if atStart \<and> atEnd then sampleLower s = body
                    else if atStart then prefix body (sampleLower s)
                    else if atEnd then suffix body (sampleLower s)
                    else sublist body (sampleLower s))
         else Inl SyntaxError)"

fun codeUnitCompare :: "nat list \<Rightarrow> nat list \<Rightarrow> int" where
  "codeUnitCompare [] [] = 0"
| "codeUnitCompare [] (y # ys) = - 1"
| "codeUnitCompare (x # xs) [] = 1"
| "codeUnitCompare (x # xs) (y # ys) =
     (if x < y then - 1 else if y < x then 1 else codeUnitCompare xs ys)"

definition sampleCompare :: "string \<Rightarrow> string \<Rightarrow> int" where
  "sampleCompare a b = codeUnitCompare (map of_char (sampleLower a)) (map of_char (sampleLower b))"

text \<open>The strings of the inherited properties, as the engines print native functions.\<close>

definition sampleInheritedToString :: "string \<Rightarrow> string" where
  "sampleInheritedToString name =
     (if name = ''__proto__'' then ''[object Object]''
      else ''function '' @ (if name = ''constructor'' then ''Object'' else name)
             @ ''() { [native code] }'')"

definition sampleHost :: host where
  "sampleHost =
     \<lparr>RegExp_i = sampleRegExp, toLowerCase = sampleLower, localeCompare = sampleCompare,
      inheritedToString = sampleInheritedToString\<rparr>"

section \<open>Properties of the condition evaluator\<close>

lemmas sample_defs =
  sampleHost_def sampleRegExp_def sampleLower_def sampleLowerChar_def literalChar_def
  sampleCompare_def sampleInheritedToString_def

lemmas fieldValueOf_eval = fieldValueOf_def getProp_def objectPrototypeNames_def toStr_def

lemma rawResult_unfold:
  "rawResult h record c =
     (let fieldValue = fieldValueOf h record (field c)
      in if operator c = ''in-list'' then
           (if cond_values c = [] then Inr True
            else Inr (list_ex (\<lambda>val. toLowerCase h fieldValue = toLowerCase h val) (cond_values c)))
         else
           (let testValue = cond_value c
            in if testValue = '''' \<and> operator c \<noteq> ''empty'' \<and> operator c \<noteq> ''not-empty''
               then Inr True
               else (case tryBlock h c fieldValue of
                       Inl error \<Rightarrow> Inr False
                     | Inr b \<Rightarrow> Inr b)))"
  by (simp add: rawResult_def resultAndLog_def Let_def split: sum.split)

lemma rawResult_total: "\<exists>b. rawResult h record c = Inr b"
  by (cases "tryBlock h c (fieldValueOf h record (field c))") (auto simp: rawResult_unfold Let_def)

lemma evaluateCondition_returns: "\<exists>b. evaluateCondition h record c = Inr b"
proof -
  obtain r where "rawResult h record c = Inr r"
    using rawResult_total by blast
  then show ?thesis
    by (simp add: evaluateCondition_def)
qed

lemma evaluateCondition_raw:
  "rawResult h record c = Inr r \<Longrightarrow> evaluateCondition h record c = Inr (if negate c then \<not> r else r)"
  by (simp add: evaluateCondition_def)

lemma rawResult_unconfigured:
  assumes "cond_value c = ''''"
    and "operator c \<noteq> ''empty''" and "operator c \<noteq> ''not-empty''" and "operator c \<noteq> ''in-list''"
  shows "rawResult h record c = Inr True"
  using assms by (simp add: rawResult_unfold)

lemma tryBlock_malformed:
  assumes "useRegex c" and "RegExp_i h (cond_value c) = Inl e"
  shows "tryBlock h c fieldValue = Inl e"
  using assms by (simp add: tryBlock_def regexBranch_def)

lemma rawResult_malformed:
  assumes "useRegex c" and "cond_value c \<noteq> ''''" and "RegExp_i h (cond_value c) = Inl e"
    and "operator c \<noteq> ''in-list''"
  shows "rawResult h record c = Inr False"
  using assms by (simp add: rawResult_unfold tryBlock_malformed)

text \<open>
  Claim C2, as amended. A condition whose value is the empty string and whose operator is
  none of \<^verbatim>\<open>empty\<close>, \<^verbatim>\<open>not-empty\<close> and \<^verbatim>\<open>in-list\<close> has the raw result \<^verbatim>\<open>true\<close> for every
  record, whatever \<^verbatim>\<open>useRegex\<close> is; \<^verbatim>\<open>evaluateCondition\<close> then returns \<^verbatim>\<open>true\<close> when
  \<^verbatim>\<open>negate\<close> is unset and \<^verbatim>\<open>false\<close> when it is set.
\<close>

theorem empty_value_matches_unless_negated:
  assumes "cond_value c = ''''"
    and "operator c \<notin> {''empty'', ''not-empty'', ''in-list''}"
  shows "rawResult h record c = Inr True \<and> evaluateCondition h record c = Inr (\<not> negate c)"
proof -
  have raw: "rawResult h record c = Inr True"
    using assms by (intro rawResult_unconfigured) auto
  show ?thesis
    using evaluateCondition_raw [OF raw] raw by simp
qed

theorem empty_value_matches_unless_negated_witness:
  "evaluateCondition sampleHost [''Gloss'' \<mapsto> ''run'']
     \<lparr>cond_id = 1, field = ''Gloss'', operator = ''starts-with'', cond_value = '''',
      cond_values = [], useRegex = True, negate = False\<rparr> = Inr True"
proof -
  let ?c = "\<lparr>cond_id = 1, field = ''Gloss'', operator = ''starts-with'', cond_value = '''',
             cond_values = [], useRegex = True, negate = False\<rparr>"
  have v: "cond_value ?c = ''''" by simp
  have o: "operator ?c \<notin> {''empty'', ''not-empty'', ''in-list''}" by simp
  show ?thesis
    using empty_value_matches_unless_negated [OF v o, of sampleHost "[''Gloss'' \<mapsto> ''run'']"]
    by simp
qed

text \<open>
  Claim C2 as stated fails when \<^verbatim>\<open>negate\<close> is set: the unconfigured condition
  \<^verbatim>\<open>{operator: 'equals', value: '', negate: true}\<close> evaluates to \<^verbatim>\<open>false\<close>.
\<close>

theorem empty_value_negated_counterexample:
  "evaluateCondition sampleHost [''Gloss'' \<mapsto> ''run'']
     \<lparr>cond_id = 1, field = ''Gloss'', operator = ''equals'', cond_value = '''',
      cond_values = [], useRegex = False, negate = True\<rparr> = Inr False"
  by (simp add: evaluateCondition_def rawResult_unfold)

text \<open>
  Claim C3, as amended. For a condition with \<^verbatim>\<open>useRegex\<close> set and a non-empty value that the
  \<^verbatim>\<open>RegExp\<close> constructor rejects, \<^verbatim>\<open>evaluateCondition\<close> returns and does not throw. When the
  operator is not \<^verbatim>\<open>in-list\<close>, the \<^verbatim>\<open>try\<close> block throws, the exception is caught and passed
  to \<^verbatim>\<open>console.error\<close>, which is all that reports it, the raw result is \<^verbatim>\<open>false\<close>, and the
  condition evaluates to the value of \<^verbatim>\<open>negate\<close>: to \<^verbatim>\<open>false\<close> when \<^verbatim>\<open>negate\<close> is unset.
  When the operator is \<^verbatim>\<open>in-list\<close>, the pattern is never compiled: nothing is logged and
  the raw result is that of the selected values alone.
\<close>

theorem malformed_regex_fails_closed:
  assumes "useRegex c" and "cond_value c \<noteq> ''''" and "RegExp_i h (cond_value c) = Inl e"
  shows "(\<exists>b. evaluateCondition h record c = Inr b)
       \<and> (operator c \<noteq> ''in-list'' \<longrightarrow>
            tryBlock h c (fieldValueOf h record (field c)) = Inl e
            \<and> consoleErrors h record c = [e]
            \<and> rawResult h record c = Inr False
            \<and> evaluateCondition h record c = Inr (negate c))
       \<and> (operator c = ''in-list'' \<longrightarrow>
            consoleErrors h record c = []
            \<and> rawResult h record c =
                Inr (cond_values c = []
                     \<or> list_ex (\<lambda>val. toLowerCase h (fieldValueOf h record (field c)) = toLowerCase h val)
                          (cond_values c)))"
proof (intro conjI impI)
  show "\<exists>b. evaluateCondition h record c = Inr b"
    by (rule evaluateCondition_returns)
next
  assume other: "operator c \<noteq> ''in-list''"
  show "tryBlock h c (fieldValueOf h record (field c)) = Inl e"
    using assms(1,3) by (rule tryBlock_malformed)
  show "consoleErrors h record c = [e]"
    using assms other by (simp add: consoleErrors_def resultAndLog_def tryBlock_malformed)
  show raw: "rawResult h record c = Inr False"
    using assms other by (rule rawResult_malformed)
  show "evaluateCondition h record c = Inr (negate c)"
    using evaluateCondition_raw [OF raw] by simp
next
  assume inlist: "operator c = ''in-list''"
  then show "consoleErrors h record c = []"
    by (simp add: consoleErrors_def resultAndLog_def)
  show "rawResult h record c =
      Inr (cond_values c = []
           \<or> list_ex (\<lambda>val. toLowerCase h (fieldValueOf h record (field c)) = toLowerCase h val)
                (cond_values c))"
    using inlist by (simp add: rawResult_unfold)
qed

theorem malformed_regex_fails_closed_witness:
  "evaluateCondition sampleHost [''Gloss'' \<mapsto> ''run'']
     \<lparr>cond_id = 2, field = ''Gloss'', operator = ''contains'', cond_value = ''(unclosed'',
      cond_values = [], useRegex = True, negate = False\<rparr> = Inr False
   \<and> consoleErrors sampleHost [''Gloss'' \<mapsto> ''run'']
       \<lparr>cond_id = 2, field = ''Gloss'', operator = ''contains'', cond_value = ''(unclosed'',
        cond_values = [], useRegex = True, negate = False\<rparr> = [SyntaxError]
   \<and> consoleErrors sampleHost [''Gloss'' \<mapsto> ''run'']
       \<lparr>cond_id = 3, field = ''Gloss'', operator = ''in-list'', cond_value = ''(unclosed'',
        cond_values = [''walk''], useRegex = True, negate = False\<rparr> = []
   \<and> rawResult sampleHost [''Gloss'' \<mapsto> ''run'']
       \<lparr>cond_id = 3, field = ''Gloss'', operator = ''in-list'', cond_value = ''(unclosed'',
        cond_values = [''walk''], useRegex = True, negate = False\<rparr> = Inr False"
proof -
  let ?c = "\<lparr>cond_id = 2, field = ''Gloss'', operator = ''contains'', cond_value = ''(unclosed'',
             cond_values = [], useRegex = True, negate = False\<rparr>"
  let ?d = "\<lparr>cond_id = 3, field = ''Gloss'', operator = ''in-list'', cond_value = ''(unclosed'',
             cond_values = [''walk''], useRegex = True, negate = False\<rparr>"
  have uc: "useRegex ?c" and ud: "useRegex ?d" by simp_all
  have vc: "cond_value ?c \<noteq> ''''" and vd: "cond_value ?d \<noteq> ''''" by simp_all
  have rc: "RegExp_i sampleHost (cond_value ?c) = Inl SyntaxError"
    by (simp add: sample_defs)
  have rd: "RegExp_i sampleHost (cond_value ?d) = Inl SyntaxError"
    by (simp add: sample_defs)
  have oc: "operator ?c \<noteq> ''in-list''" by simp
  have od: "operator ?d = ''in-list''" by simp
  show ?thesis
    using malformed_regex_fails_closed [OF uc vc rc, of "[''Gloss'' \<mapsto> ''run'']"] oc
      malformed_regex_fails_closed [OF ud vd rd, of "[''Gloss'' \<mapsto> ''run'']"] od
    by (simp add: fieldValueOf_eval sample_defs)
qed

text \<open>
  Claim C3 as stated fails in two ways on the malformed pattern \<^verbatim>\<open>(unclosed\<close> with
  \<^verbatim>\<open>useRegex\<close> set: with \<^verbatim>\<open>negate\<close> set the condition evaluates to \<^verbatim>\<open>true\<close>, and an
  \<^verbatim>\<open>in-list\<close> condition (here with no value selected) never compiles the pattern and
  evaluates to \<^verbatim>\<open>true\<close>.
\<close>

theorem malformed_regex_counterexample:
  "RegExp_i sampleHost ''(unclosed'' = Inl SyntaxError
   \<and> evaluateCondition sampleHost [''Gloss'' \<mapsto> ''run'']
       \<lparr>cond_id = 1, field = ''Gloss'', operator = ''contains'', cond_value = ''(unclosed'',
        cond_values = [], useRegex = True, negate = True\<rparr> = Inr True
   \<and> evaluateCondition sampleHost [''Gloss'' \<mapsto> ''run'']
       \<lparr>cond_id = 1, field = ''Gloss'', operator = ''in-list'', cond_value = ''(unclosed'',
        cond_values = [], useRegex = True, negate = False\<rparr> = Inr True"
  by (simp add: evaluateCondition_def rawResult_unfold tryBlock_def regexBranch_def sample_defs)

text \<open>
  Claim C5. For an \<^verbatim>\<open>in-list\<close> condition: with no value selected and \<^verbatim>\<open>negate\<close> unset it
  matches every record; with the single value \<open>v\<close> and \<^verbatim>\<open>negate\<close> set it matches exactly
  the records whose field value differs from \<open>v\<close> after \<^verbatim>\<open>toLowerCase\<close>; and the outcome
  does not depend on \<^verbatim>\<open>useRegex\<close>.
\<close>

theorem in_list_semantics:
  assumes "operator c = ''in-list''"
  shows "(cond_values c = [] \<and> \<not> negate c \<longrightarrow> evaluateCondition h record c = Inr True)
       \<and> (cond_values c = [v] \<and> negate c \<longrightarrow>
            evaluateCondition h record c =
              Inr (toLowerCase h (fieldValueOf h record (field c)) \<noteq> toLowerCase h v))
       \<and> evaluateCondition h record (c\<lparr>useRegex := b\<rparr>) = evaluateCondition h record c"
  using assms by (simp add: evaluateCondition_def rawResult_unfold)

theorem in_list_semantics_witness:
  "evaluateCondition sampleHost [''Category'' \<mapsto> ''C'']
     \<lparr>cond_id = 1, field = ''Category'', operator = ''in-list'', cond_value = '''',
      cond_values = [], useRegex = False, negate = False\<rparr> = Inr True
   \<and> evaluateCondition sampleHost [''Category'' \<mapsto> ''a'']
       \<lparr>cond_id = 2, field = ''Category'', operator = ''in-list'', cond_value = '''',
        cond_values = [''A''], useRegex = False, negate = True\<rparr> = Inr False
   \<and> evaluateCondition sampleHost [''Category'' \<mapsto> ''C'']
       \<lparr>cond_id = 2, field = ''Category'', operator = ''in-list'', cond_value = '''',
        cond_values = [''A''], useRegex = False, negate = True\<rparr> = Inr True"
proof -
  let ?c1 = "\<lparr>cond_id = 1, field = ''Category'', operator = ''in-list'', cond_value = '''',
              cond_values = [], useRegex = False, negate = False\<rparr>"
  let ?c2 = "\<lparr>cond_id = 2, field = ''Category'', operator = ''in-list'', cond_value = '''',
              cond_values = [''A''], useRegex = False, negate = True\<rparr>"
  have o1: "operator ?c1 = ''in-list''" by simp
  have o2: "operator ?c2 = ''in-list''" by simp
  show ?thesis
    using in_list_semantics [OF o1, of sampleHost "[''Category'' \<mapsto> ''C'']"]
      in_list_semantics [OF o2, of sampleHost "[''Category'' \<mapsto> ''a'']" "''A''"]
      in_list_semantics [OF o2, of sampleHost "[''Category'' \<mapsto> ''C'']" "''A''"]
    by (simp add: fieldValueOf_eval sample_defs)
qed

text \<open>
  Claim C9. Flipping \<^verbatim>\<open>negate\<close> negates the outcome of \<^verbatim>\<open>evaluateCondition\<close>, for every
  host, record and condition (any operator, regex mode or not, malformed pattern or not).
\<close>

theorem negate_flips_evaluateCondition:
  "\<exists>b. evaluateCondition h record c = Inr b
     \<and> evaluateCondition h record (c\<lparr>negate := \<not> negate c\<rparr>) = Inr (\<not> b)"
proof -
  obtain r where r: "rawResult h record c = Inr r"
    using rawResult_total by blast
  have "rawResult h record (c\<lparr>negate := \<not> negate c\<rparr>) = rawResult h record c"
    by (simp add: rawResult_unfold tryBlock_def Let_def cong: if_cong)
  with r show ?thesis
    by (simp add: evaluateCondition_def)
qed

theorem negate_flips_evaluateCondition_witness:
  "evaluateCondition sampleHost [''Gloss'' \<mapsto> ''run.INCMP'']
     \<lparr>cond_id = 2, field = ''Gloss'', operator = ''contains'', cond_value = ''run'',
      cond_values = [], useRegex = False, negate = False\<rparr> = Inr True
   \<and> evaluateCondition sampleHost [''Gloss'' \<mapsto> ''run.INCMP'']
       \<lparr>cond_id = 2, field = ''Gloss'', operator = ''contains'', cond_value = ''run'',
        cond_values = [], useRegex = False, negate = True\<rparr> = Inr False"
proof -
  let ?c = "\<lparr>cond_id = 2, field = ''Gloss'', operator = ''contains'', cond_value = ''run'',
             cond_values = [], useRegex = False, negate = False\<rparr>"
  have plain: "evaluateCondition sampleHost [''Gloss'' \<mapsto> ''run.INCMP''] ?c = Inr True"
    by (simp add: evaluateCondition_def rawResult_unfold tryBlock_def plainBranch_def
        fieldValueOf_eval sample_defs sublist_code)
  show ?thesis
    using negate_flips_evaluateCondition [of sampleHost "[''Gloss'' \<mapsto> ''run.INCMP'']" ?c] plain
    by auto
qed

text \<open>
  Claim C10, as amended. For an operator that is none of the nine the code knows and a
  non-empty value, the dispatch falls to its default branch and the raw result is
  \<^verbatim>\<open>true\<close>, except when \<^verbatim>\<open>useRegex\<close> is set and the \<^verbatim>\<open>RegExp\<close> constructor rejects the value:
  the pattern is compiled before the dispatch, the exception is caught, and the raw result
  is \<^verbatim>\<open>false\<close>. In both cases \<^verbatim>\<open>evaluateCondition\<close> returns the raw result, negated when
  \<^verbatim>\<open>negate\<close> is set.
\<close>

theorem unknown_operator_default:
  assumes "operator c \<notin> {''equals'', ''not-equals'', ''contains'', ''not-contains'',
                          ''starts-with'', ''ends-with'', ''empty'', ''not-empty'', ''in-list''}"
    and "cond_value c \<noteq> ''''"
  shows "rawResult h record c = Inr (\<not> (useRegex c \<and> isl (RegExp_i h (cond_value c))))
       \<and> evaluateCondition h record c =
           Inr (negate c = (useRegex c \<and> isl (RegExp_i h (cond_value c))))"
proof -
  have raw: "rawResult h record c = Inr (\<not> (useRegex c \<and> isl (RegExp_i h (cond_value c))))"
    using assms
    by (cases "RegExp_i h (cond_value c)"; cases "useRegex c")
       (simp_all add: rawResult_unfold tryBlock_def regexBranch_def plainBranch_def Let_def)
  show ?thesis
    using evaluateCondition_raw [OF raw] raw by auto
qed

theorem unknown_operator_default_witness:
  "rawResult sampleHost [''Gloss'' \<mapsto> ''run'']
     \<lparr>cond_id = 1, field = ''Gloss'', operator = ''matches'', cond_value = ''walk'',
      cond_values = [], useRegex = True, negate = False\<rparr> = Inr True"
proof -
  let ?c = "\<lparr>cond_id = 1, field = ''Gloss'', operator = ''matches'', cond_value = ''walk'',
             cond_values = [], useRegex = True, negate = False\<rparr>"
  have o: "operator ?c \<notin> {''equals'', ''not-equals'', ''contains'', ''not-contains'',
                          ''starts-with'', ''ends-with'', ''empty'', ''not-empty'', ''in-list''}"
    by simp
  have v: "cond_value ?c \<noteq> ''''" by simp
  show ?thesis
    using unknown_operator_default [OF o v, of sampleHost "[''Gloss'' \<mapsto> ''run'']"]
    by (simp add: sample_defs)
qed

text \<open>
  Claim C10 as stated fails on an unknown operator with \<^verbatim>\<open>useRegex\<close> set and the malformed
  pattern \<^verbatim>\<open>(unclosed\<close>: the raw result is \<^verbatim>\<open>false\<close>.
\<close>

theorem unknown_operator_counterexample:
  "rawResult sampleHost [''Gloss'' \<mapsto> ''run'']
     \<lparr>cond_id = 1, field = ''Gloss'', operator = ''matches'', cond_value = ''(unclosed'',
      cond_values = [], useRegex = True, negate = False\<rparr> = Inr False"
  by (simp add: rawResult_unfold tryBlock_def regexBranch_def sample_defs)

section \<open>Properties of the filter group evaluator\<close>

lemma every_js_returns:
  assumes "\<And>x. \<exists>b. f x = Inr b"
  shows "every_js f xs = Inr (\<forall>x\<in>set xs. f x = Inr True)"
proof (induction xs)
  case Nil
  show ?case by simp
next
  case (Cons x xs)
  obtain b where "f x = Inr b"
    using assms by blast
  with Cons show ?case
    by (cases b) simp_all
qed

lemma some_js_returns:
  assumes "\<And>x. \<exists>b. f x = Inr b"
  shows "some_js f xs = Inr (\<exists>x\<in>set xs. f x = Inr True)"
proof (induction xs)
  case Nil
  show ?case by simp
next
  case (Cons x xs)
  obtain b where "f x = Inr b"
    using assms by blast
  with Cons show ?case
    by (cases b) simp_all
qed

lemma filter_js_returns:
  assumes "\<And>x. \<exists>b. f x = Inr b"
  shows "filter_js f xs = Inr (filter (\<lambda>x. f x = Inr True) xs)"
proof (induction xs)
  case Nil
  show ?case by simp
next
  case (Cons x xs)
  obtain b where "f x = Inr b"
    using assms by blast
  with Cons show ?case
    by (cases b) simp_all
qed

lemma evaluateFilterGroup_AND:
  assumes "logic g = ''AND''"
  shows "evaluateFilterGroup h record g =
           Inr (\<forall>c\<in>set (conditions g). evaluateCondition h record c = Inr True)"
proof (cases "conditions g = []")
  case True
  then show ?thesis
    by (simp add: evaluateFilterGroup_def)
next
  case False
  then show ?thesis
    using assms every_js_returns [of "\<lambda>c. evaluateCondition h record c" "conditions g"]
    by (simp add: evaluateFilterGroup_def evaluateCondition_returns)
qed

lemma evaluateFilterGroup_not_AND:
  assumes "logic g \<noteq> ''AND''" and "conditions g \<noteq> []"
  shows "evaluateFilterGroup h record g =
           Inr (\<exists>c\<in>set (conditions g). evaluateCondition h record c = Inr True)"
  using assms some_js_returns [of "\<lambda>c. evaluateCondition h record c" "conditions g"]
  by (simp add: evaluateFilterGroup_def evaluateCondition_returns)

lemma evaluateFilterGroup_returns: "\<exists>b. evaluateFilterGroup h record g = Inr b"
proof (cases "logic g = ''AND''")
  case True
  then show ?thesis
    by (simp add: evaluateFilterGroup_AND)
next
  case notAND: False
  show ?thesis
  proof (cases "conditions g = []")
    case True
    then show ?thesis
      by (auto simp: evaluateFilterGroup_def)
  next
    case False
    with notAND show ?thesis
      by (simp add: evaluateFilterGroup_not_AND)
  qed
qed

text \<open>
  Claim C7. A group without conditions matches every record. A group with logic \<^verbatim>\<open>AND\<close>
  matches a record exactly when every one of its conditions does. A group with logic
  \<^verbatim>\<open>OR\<close> matches a record exactly when it has no condition, which is the first case, or
  at least one of its conditions does. \<^verbatim>\<open>evaluateFilterGroup\<close> returns in every case.
\<close>

theorem evaluateFilterGroup_semantics:
  "(conditions g = [] \<longrightarrow> evaluateFilterGroup h record g = Inr True)
   \<and> (logic g = ''AND'' \<longrightarrow>
        evaluateFilterGroup h record g =
          Inr (\<forall>c\<in>set (conditions g). evaluateCondition h record c = Inr True))
   \<and> (logic g = ''OR'' \<longrightarrow>
        evaluateFilterGroup h record g =
          Inr (conditions g = []
               \<or> (\<exists>c\<in>set (conditions g). evaluateCondition h record c = Inr True)))"
proof (intro conjI impI)
  assume "conditions g = []"
  then show "evaluateFilterGroup h record g = Inr True"
    by (simp add: evaluateFilterGroup_def)
next
  assume "logic g = ''AND''"
  then show "evaluateFilterGroup h record g =
      Inr (\<forall>c\<in>set (conditions g). evaluateCondition h record c = Inr True)"
    by (rule evaluateFilterGroup_AND)
next
  assume disj: "logic g = ''OR''"
  show "evaluateFilterGroup h record g =
      Inr (conditions g = []
           \<or> (\<exists>c\<in>set (conditions g). evaluateCondition h record c = Inr True))"
  proof (cases "conditions g = []")
    case True
    then show ?thesis
      by (simp add: evaluateFilterGroup_def)
  next
    case False
    have "logic g \<noteq> ''AND''"
      using disj by simp
    then show ?thesis
      using False by (simp add: evaluateFilterGroup_not_AND)
  qed
qed

theorem evaluateFilterGroup_semantics_witness:
  "evaluateFilterGroup sampleHost [''Gloss'' \<mapsto> ''run.INCMP'', ''Category'' \<mapsto> ''V'']
     \<lparr>group_id = 1, logic = ''AND'', conditions = []\<rparr> = Inr True
   \<and> evaluateFilterGroup sampleHost [''Gloss'' \<mapsto> ''run.INCMP'', ''Category'' \<mapsto> ''V'']
       \<lparr>group_id = 2, logic = ''AND'', conditions =
          [\<lparr>cond_id = 2, field = ''Gloss'', operator = ''contains'', cond_value = ''run'',
            cond_values = [], useRegex = False, negate = False\<rparr>,
           \<lparr>cond_id = 3, field = ''Category'', operator = ''equals'', cond_value = ''N'',
            cond_values = [], useRegex = False, negate = False\<rparr>]\<rparr> = Inr False
   \<and> evaluateFilterGroup sampleHost [''Gloss'' \<mapsto> ''run.INCMP'', ''Category'' \<mapsto> ''V'']
       \<lparr>group_id = 3, logic = ''OR'', conditions =
          [\<lparr>cond_id = 2, field = ''Gloss'', operator = ''contains'', cond_value = ''run'',
            cond_values = [], useRegex = False, negate = False\<rparr>,
           \<lparr>cond_id = 3, field = ''Category'', operator = ''equals'', cond_value = ''N'',
            cond_values = [], useRegex = False, negate = False\<rparr>]\<rparr> = Inr True
   \<and> evaluateFilterGroup sampleHost [''Gloss'' \<mapsto> ''run.INCMP'', ''Category'' \<mapsto> ''V'']
       \<lparr>group_id = 4, logic = ''OR'', conditions = []\<rparr> = Inr True"
proof -
  let ?r = "[''Gloss'' \<mapsto> ''run.INCMP'', ''Category'' \<mapsto> ''V'']"
  let ?cs = "[\<lparr>cond_id = 2, field = ''Gloss'', operator = ''contains'', cond_value = ''run'',
               cond_values = [], useRegex = False, negate = False\<rparr>,
              \<lparr>cond_id = 3, field = ''Category'', operator = ''equals'', cond_value = ''N'',
               cond_values = [], useRegex = False, negate = False\<rparr>]"
  have c1: "evaluateCondition sampleHost ?r
      \<lparr>cond_id = 2, field = ''Gloss'', operator = ''contains'', cond_value = ''run'',
       cond_values = [], useRegex = False, negate = False\<rparr> = Inr True"
    by (simp add: evaluateCondition_def rawResult_unfold tryBlock_def plainBranch_def
        fieldValueOf_eval sample_defs sublist_code)
  have c2: "evaluateCondition sampleHost ?r
      \<lparr>cond_id = 3, field = ''Category'', operator = ''equals'', cond_value = ''N'',
       cond_values = [], useRegex = False, negate = False\<rparr> = Inr False"
    by (simp add: evaluateCondition_def rawResult_unfold tryBlock_def plainBranch_def
        fieldValueOf_eval sample_defs)
  show ?thesis
    using evaluateFilterGroup_semantics
        [of "\<lparr>group_id = 1, logic = ''AND'', conditions = []\<rparr>" sampleHost ?r]
      evaluateFilterGroup_semantics
        [of "\<lparr>group_id = 2, logic = ''AND'', conditions = ?cs\<rparr>" sampleHost ?r]
      evaluateFilterGroup_semantics
        [of "\<lparr>group_id = 3, logic = ''OR'', conditions = ?cs\<rparr>" sampleHost ?r]
      evaluateFilterGroup_semantics
        [of "\<lparr>group_id = 4, logic = ''OR'', conditions = []\<rparr>" sampleHost ?r]
    by (simp add: c1 c2)
qed

text \<open>
  Claim C6. With no filter group \<^verbatim>\<open>applyFilters\<close> returns the records unchanged; with at
  least one group it returns, in their original order, exactly the records that
  satisfy at least one group. In both cases it returns and does not throw.
\<close>

theorem applyFilters_semantics:
  "(filterGroups s = [] \<longrightarrow> applyFilters h s recs = Inr recs)
   \<and> (filterGroups s \<noteq> [] \<longrightarrow>
        applyFilters h s recs =
          Inr (filter (\<lambda>r. \<exists>g\<in>set (filterGroups s). evaluateFilterGroup h r g = Inr True) recs))"
proof (intro conjI impI)
  assume "filterGroups s = []"
  then show "applyFilters h s recs = Inr recs"
    by (simp add: applyFilters_def)
next
  assume nonempty: "filterGroups s \<noteq> []"
  let ?anyGroup = "\<lambda>r. some_js (\<lambda>g. evaluateFilterGroup h r g) (filterGroups s)"
  have some: "?anyGroup r = Inr (\<exists>g\<in>set (filterGroups s). evaluateFilterGroup h r g = Inr True)"
    for r
    by (rule some_js_returns) (rule evaluateFilterGroup_returns)
  have "filter_js ?anyGroup recs = Inr (filter (\<lambda>r. ?anyGroup r = Inr True) recs)"
    by (rule filter_js_returns) (simp add: some)
  then show "applyFilters h s recs =
      Inr (filter (\<lambda>r. \<exists>g\<in>set (filterGroups s). evaluateFilterGroup h r g = Inr True) recs)"
    using nonempty by (simp add: applyFilters_def some)
qed

theorem applyFilters_semantics_witness:
  "applyFilters sampleHost
     \<lparr>database = None, fieldNames = [''Category''], records = [], filterGroups = [],
      fieldValuesCache = Map.empty\<rparr>
     [[''Category'' \<mapsto> ''C''], [''Category'' \<mapsto> ''A'']]
     = Inr [[''Category'' \<mapsto> ''C''], [''Category'' \<mapsto> ''A'']]
   \<and> applyFilters sampleHost
       \<lparr>database = None, fieldNames = [''Category''], records = [],
        filterGroups =
          [\<lparr>group_id = 2, logic = ''AND'', conditions =
             [\<lparr>cond_id = 2, field = ''Category'', operator = ''in-list'', cond_value = '''',
               cond_values = [''A'', ''B''], useRegex = False, negate = False\<rparr>]\<rparr>],
        fieldValuesCache = Map.empty\<rparr>
       [[''Category'' \<mapsto> ''A''], [''Category'' \<mapsto> ''B''], [''Category'' \<mapsto> ''A''],
        [''Category'' \<mapsto> ''C''], [''Category'' \<mapsto> ''B'']]
     = Inr [[''Category'' \<mapsto> ''A''], [''Category'' \<mapsto> ''B''], [''Category'' \<mapsto> ''A''],
            [''Category'' \<mapsto> ''B'']]"
proof -
  let ?s0 = "\<lparr>database = None, fieldNames = [''Category''], records = [], filterGroups = [],
              fieldValuesCache = Map.empty\<rparr>"
  let ?c = "\<lparr>cond_id = 2, field = ''Category'', operator = ''in-list'', cond_value = '''',
             cond_values = [''A'', ''B''], useRegex = False, negate = False\<rparr>"
  let ?g = "\<lparr>group_id = 2, logic = ''AND'', conditions = [?c]\<rparr>"
  let ?s1 = "\<lparr>database = None, fieldNames = [''Category''], records = [], filterGroups = [?g],
              fieldValuesCache = Map.empty\<rparr>"
  have e0: "filterGroups ?s0 = []" by simp
  have e1: "filterGroups ?s1 \<noteq> []" by simp
  have g: "evaluateFilterGroup sampleHost [''Category'' \<mapsto> v] ?g =
      Inr (sampleLower v = ''a'' \<or> sampleLower v = ''b'')" for v
    by (simp add: evaluateFilterGroup_def evaluateCondition_def rawResult_unfold fieldValueOf_eval
        sample_defs)
  show ?thesis
    using applyFilters_semantics [of ?s0 sampleHost
        "[[''Category'' \<mapsto> ''C''], [''Category'' \<mapsto> ''A'']]"]
      applyFilters_semantics [of ?s1 sampleHost
        "[[''Category'' \<mapsto> ''A''], [''Category'' \<mapsto> ''B''], [''Category'' \<mapsto> ''A''],
          [''Category'' \<mapsto> ''C''], [''Category'' \<mapsto> ''B'']]"]
    by (simp add: g sampleLower_def sampleLowerChar_def)
qed

section \<open>Properties of the pivot aggregator\<close>

lemma map_fst_push_at: "map fst (push_at key r m) = map fst m"
  by (induction key r m rule: push_at.induct) auto

lemma map_of_push_at:
  "map_of (push_at key r m) k =
     (if k = key then map_option (\<lambda>bucket. bucket @ [r]) (map_of m key) else map_of m k)"
  by (induction key r m rule: push_at.induct) auto

lemma bucketTotal_push_at:
  "key \<in> fst ` set m \<Longrightarrow> bucketTotal (push_at key r m) = Suc (bucketTotal m)"
  by (induction key r m rule: push_at.induct) (auto simp: bucketTotal_def)

lemma bucketTotal_new_key: "bucketTotal (m @ [(key, [])]) = bucketTotal m"
  by (simp add: bucketTotal_def)

lemma pivotStep_eq:
  "pivotStep h rowF colF (pm, rowSet, colSet) r =
     (let key = recordKey h rowF colF r;
          pm1 = (if map_of pm key = None then pm @ [(key, [])] else pm)
      in case map_of pm1 key of
           None \<Rightarrow> Inl TypeError
         | Some bucket \<Rightarrow>
             Inr (push_at key r pm1, set_add (cellValue r rowF) rowSet,
                  set_add (cellValue r colF) colSet))"
  by (simp add: pivotStep_def recordKey_def Let_def)

lemma pivotStep_keeps_buckets:
  assumes d: "distinct (map fst pm)"
    and t: "bucketTotal pm = length seen"
    and m: "\<And>key. map_of pm key =
              (if key \<in> recordKey h rowF colF ` set seen
               then Some (filter (\<lambda>x. recordKey h rowF colF x = key) seen) else None)"
  shows "\<exists>pm1 rowSet1 colSet1.
           pivotStep h rowF colF (pm, rowSet, colSet) r = Inr (pm1, rowSet1, colSet1)
         \<and> distinct (map fst pm1)
         \<and> bucketTotal pm1 = length (seen @ [r])
         \<and> (\<forall>key. map_of pm1 key =
              (if key \<in> recordKey h rowF colF ` set (seen @ [r])
               then Some (filter (\<lambda>x. recordKey h rowF colF x = key) (seen @ [r])) else None))"
proof (cases "map_of pm (recordKey h rowF colF r)")
  case None
  let ?k = "recordKey h rowF colF r"
  let ?pm0 = "pm @ [(?k, [])]"
  have fresh: "?k \<notin> fst ` set pm"
    using None by (simp add: map_of_eq_None_iff)
  have unseen: "?k \<notin> recordKey h rowF colF ` set seen"
    using None m [of ?k] by (simp split: if_splits)
  have apart: "recordKey h rowF colF x \<noteq> ?k" if "x \<in> set seen" for x
    using unseen that by (metis imageI)
  have look: "map_of ?pm0 key = (if key = ?k then Some [] else map_of pm key)" for key
    using None by (auto simp: map_add_def split: option.splits)
  have step: "pivotStep h rowF colF (pm, rowSet, colSet) r =
      Inr (push_at ?k r ?pm0, set_add (cellValue r rowF) rowSet, set_add (cellValue r colF) colSet)"
    using None by (simp add: pivotStep_eq Let_def look del: map_of_append)
  have "distinct (map fst (push_at ?k r ?pm0))"
    using d fresh by (simp add: map_fst_push_at)
  moreover have "bucketTotal (push_at ?k r ?pm0) = length (seen @ [r])"
    using t by (simp add: bucketTotal_push_at bucketTotal_new_key)
  moreover have "map_of (push_at ?k r ?pm0) key =
      (if key \<in> recordKey h rowF colF ` set (seen @ [r])
       then Some (filter (\<lambda>x. recordKey h rowF colF x = key) (seen @ [r])) else None)" for key
    using apart m [of key]
    by (auto simp: map_of_push_at look filter_empty_conv simp del: map_of_append)
  ultimately show ?thesis
    using step by blast
next
  case (Some bucket)
  let ?k = "recordKey h rowF colF r"
  have present: "?k \<in> fst ` set pm"
    using Some by (metis map_of_eq_None_iff option.distinct(1))
  have step: "pivotStep h rowF colF (pm, rowSet, colSet) r =
      Inr (push_at ?k r pm, set_add (cellValue r rowF) rowSet, set_add (cellValue r colF) colSet)"
    using Some by (simp add: pivotStep_eq)
  have "distinct (map fst (push_at ?k r pm))"
    using d by (simp add: map_fst_push_at)
  moreover have "bucketTotal (push_at ?k r pm) = length (seen @ [r])"
    using t present by (simp add: bucketTotal_push_at)
  moreover have "map_of (push_at ?k r pm) key =
      (if key \<in> recordKey h rowF colF ` set (seen @ [r])
       then Some (filter (\<lambda>x. recordKey h rowF colF x = key) (seen @ [r])) else None)" for key
    using Some m [of key] m [of ?k] by (auto simp: map_of_push_at split: if_splits)
  ultimately show ?thesis
    using step by blast
qed

lemma forEach_pivotStep:
  assumes "distinct (map fst pm)"
    and "bucketTotal pm = length seen"
    and "\<And>key. map_of pm key =
              (if key \<in> recordKey h rowF colF ` set seen
               then Some (filter (\<lambda>x. recordKey h rowF colF x = key) seen) else None)"
  shows "\<exists>pm1 rowSet1 colSet1.
           forEach_js (pivotStep h rowF colF) (pm, rowSet, colSet) recs = Inr (pm1, rowSet1, colSet1)
         \<and> distinct (map fst pm1)
         \<and> bucketTotal pm1 = length (seen @ recs)
         \<and> (\<forall>key. map_of pm1 key =
              (if key \<in> recordKey h rowF colF ` set (seen @ recs)
               then Some (filter (\<lambda>x. recordKey h rowF colF x = key) (seen @ recs)) else None))"
  using assms
proof (induction recs arbitrary: pm rowSet colSet seen)
  case Nil
  then show ?case by simp
next
  case (Cons r recs)
  obtain pm1 rowSet1 colSet1 where
    step: "pivotStep h rowF colF (pm, rowSet, colSet) r = Inr (pm1, rowSet1, colSet1)"
    and d1: "distinct (map fst pm1)"
    and t1: "bucketTotal pm1 = length (seen @ [r])"
    and m1: "\<And>key. map_of pm1 key =
              (if key \<in> recordKey h rowF colF ` set (seen @ [r])
               then Some (filter (\<lambda>x. recordKey h rowF colF x = key) (seen @ [r])) else None)"
    using pivotStep_keeps_buckets [OF Cons.prems, of rowSet colSet r] by blast
  have run: "forEach_js (pivotStep h rowF colF) (pm, rowSet, colSet) (r # recs) =
      forEach_js (pivotStep h rowF colF) (pm1, rowSet1, colSet1) recs"
    using step by simp
  have shift: "(seen @ [r]) @ recs = seen @ r # recs"
    by simp
  show ?case
    using Cons.IH [OF d1 t1 m1, of rowSet1 colSet1] unfolding run shift .
qed

text \<open>
  The loop of \<^verbatim>\<open>generatePivotTable\<close> never throws, and it partitions the records by their
  key: the keys of the map are distinct, the bucket under a key holds, in their original
  order, exactly the records with that key, and the bucket sizes add up to the number of
  records.
\<close>

lemma pivot_loop_partitions:
  "\<exists>pm rowSet colSet.
     forEach_js (pivotStep h rowF colF) ([], [], []) recs = Inr (pm, rowSet, colSet)
     \<and> distinct (map fst pm)
     \<and> bucketTotal pm = length recs
     \<and> (\<forall>key. map_of pm key =
           (if key \<in> recordKey h rowF colF ` set recs
            then Some (filter (\<lambda>x. recordKey h rowF colF x = key) recs) else None))"
proof -
  have d: "distinct (map fst ([] :: pivotMapT))"
    by simp
  have t: "bucketTotal [] = length ([] :: jsrecord list)"
    by (simp add: bucketTotal_def)
  have m: "map_of ([] :: pivotMapT) key =
      (if key \<in> recordKey h rowF colF ` set []
       then Some (filter (\<lambda>x. recordKey h rowF colF x = key) []) else None)" for key
    by simp
  show ?thesis
    using forEach_pivotStep [OF d t m, of "[]" "[]" recs] by (simp only: append_Nil)
qed

text \<open>
  Claim C4 has every record in exactly one bucket, keyed by the ordered pair of its row
  value and column value, so that no record is counted twice. The code keys the bucket
  by the string \<^verbatim>\<open>rowVal|||colVal\<close> and reads the cell of a pair under that string. The
  pairs \<^verbatim>\<open>(a|||b, c)\<close> and \<^verbatim>\<open>(a, b|||c)\<close> have the same string: the two records below, with
  different pairs, share the only bucket, and each of the two cells of the table, that of
  \<^verbatim>\<open>(a|||b, c)\<close> and that of \<^verbatim>\<open>(a, b|||c)\<close>, holds both records, four entries for two records.
\<close>

theorem generatePivotTable_key_collision:
  "map_sum id
     (\<lambda>p. (pivotMap p,
           cellEntries sampleHost p (Str ''a|||b'') (Str ''c''),
           cellEntries sampleHost p (Str ''a'') (Str ''b|||c'')))
     (generatePivotTable sampleHost
        [[''Root'' \<mapsto> ''a|||b'', ''Tone'' \<mapsto> ''c''], [''Root'' \<mapsto> ''a'', ''Tone'' \<mapsto> ''b|||c'']]
        ''Root'' ''Tone'')
   = Inr ([(''a|||b|||c'',
            [[''Root'' \<mapsto> ''a|||b'', ''Tone'' \<mapsto> ''c''],
             [''Root'' \<mapsto> ''a'', ''Tone'' \<mapsto> ''b|||c'']])],
          [[''Root'' \<mapsto> ''a|||b'', ''Tone'' \<mapsto> ''c''], [''Root'' \<mapsto> ''a'', ''Tone'' \<mapsto> ''b|||c'']],
          [[''Root'' \<mapsto> ''a|||b'', ''Tone'' \<mapsto> ''c''], [''Root'' \<mapsto> ''a'', ''Tone'' \<mapsto> ''b|||c'']])"
  by (simp add: generatePivotTable_def pivotStep_def cellValue_def pivotKey_def set_add_def
      cellEntries_def sort_js_def naturalSort_def getProp_def objectPrototypeNames_def toStr_def
      sample_defs Let_def)

section \<open>Field names that every object inherits\<close>

text \<open>
  A record that lacks a field whose name is not a property of \<^verbatim>\<open>Object.prototype\<close> reads
  as the empty string in the evaluator and as the placeholder in the aggregator.
\<close>

lemma fieldValueOf_missing:
  assumes "record f = None" and "f \<notin> set objectPrototypeNames"
  shows "fieldValueOf h record f = ''''"
  using assms by (auto simp: fieldValueOf_def getProp_def objectPrototypeNames_def)

lemma cellValue_missing:
  assumes "record f = None" and "f \<notin> set objectPrototypeNames"
  shows "cellValue record f = Str ''(empty)''"
  using assms by (auto simp: cellValue_def getProp_def objectPrototypeNames_def)

text \<open>
  Claim C8 has the evaluator and the aggregator total for every record and every field
  name, a record that lacks the field being read as the empty string. The records are
  plain objects, and a field name is the tag name of an XML element: on the name of a
  property that every object inherits the code breaks the claim. The record
  \<^verbatim>\<open>{Gloss: 'run'}\<close> lacks the field \<^verbatim>\<open>constructor\<close>; \<^verbatim>\<open>evaluateCondition\<close> returns for it, but
  for the operator \<^verbatim>\<open>empty\<close> it returns \<^verbatim>\<open>false\<close>, where the record with the empty string in
  that field gives \<^verbatim>\<open>true\<close>. And with the row field \<^verbatim>\<open>toString\<close>, which the second of the
  three records below lacks, \<^verbatim>\<open>generatePivotTable\<close> throws a \<^verbatim>\<open>TypeError\<close>: the row value
  of that record is the inherited function, and the sort calls \<^verbatim>\<open>localeCompare\<close> on it.
\<close>

theorem inherited_field_name_breaks_totality:
  "evaluateCondition sampleHost [''Gloss'' \<mapsto> ''run'']
     \<lparr>cond_id = 2, field = ''constructor'', operator = ''empty'', cond_value = '''',
      cond_values = [], useRegex = False, negate = False\<rparr> = Inr False
   \<and> evaluateCondition sampleHost [''Gloss'' \<mapsto> ''run'', ''constructor'' \<mapsto> '''']
       \<lparr>cond_id = 2, field = ''constructor'', operator = ''empty'', cond_value = '''',
        cond_values = [], useRegex = False, negate = False\<rparr> = Inr True
   \<and> generatePivotTable sampleHost
       [[''toString'' \<mapsto> ''a'', ''Gloss'' \<mapsto> ''x''],
        [''Gloss'' \<mapsto> ''y''],
        [''toString'' \<mapsto> ''b'', ''Gloss'' \<mapsto> ''z'']]
       ''toString'' ''Gloss'' = Inl TypeError"
proof (intro conjI)
  show "evaluateCondition sampleHost [''Gloss'' \<mapsto> ''run'']
     \<lparr>cond_id = 2, field = ''constructor'', operator = ''empty'', cond_value = '''',
      cond_values = [], useRegex = False, negate = False\<rparr> = Inr False"
    by (simp add: evaluateCondition_def rawResult_unfold tryBlock_def plainBranch_def
        fieldValueOf_eval sample_defs)
  show "evaluateCondition sampleHost [''Gloss'' \<mapsto> ''run'', ''constructor'' \<mapsto> '''']
       \<lparr>cond_id = 2, field = ''constructor'', operator = ''empty'', cond_value = '''',
        cond_values = [], useRegex = False, negate = False\<rparr> = Inr True"
    by (simp add: evaluateCondition_def rawResult_unfold tryBlock_def plainBranch_def
        fieldValueOf_eval sample_defs)
  show "generatePivotTable sampleHost
       [[''toString'' \<mapsto> ''a'', ''Gloss'' \<mapsto> ''x''],
        [''Gloss'' \<mapsto> ''y''],
        [''toString'' \<mapsto> ''b'', ''Gloss'' \<mapsto> ''z'']]
       ''toString'' ''Gloss'' = Inl TypeError"
    by (simp add: generatePivotTable_def pivotStep_def cellValue_def pivotKey_def set_add_def
        sort_js_def naturalSort_def getProp_def objectPrototypeNames_def toStr_def
        sample_defs Let_def)
qed

section \<open>Properties of the field value index\<close>

lemma handleFileSelect_cache: "fieldValuesCache (handleFileSelect file parsed s) = fieldValuesCache s"
  by (simp add: handleFileSelect_def split: option.split sum.split prod.split)

text \<open>
  A successful load replaces the database name, the records and the field names, and
  nothing else.
\<close>

lemma handleFileSelect_loads:
  assumes "recs \<noteq> []"
  shows "handleFileSelect (Some name) (Inr (recs, flds)) s =
           s\<lparr>database := Some name, records := recs, fieldNames := flds\<rparr>"
  using assms by (simp add: handleFileSelect_def)

text \<open>The comparator does not throw on strings, so the sort of the values returns.\<close>

lemma insert_js_strings:
  "\<exists>zs. insert_js (\<lambda>a b. naturalSort h (Str a) (Str b)) x ys = Inr zs"
  by (induction ys) (auto simp: naturalSort_def)

lemma sort_strings_from:
  "\<exists>zs. forEach_js (\<lambda>sorted x. insert_js (\<lambda>a b. naturalSort h (Str a) (Str b)) x sorted) acc xs
          = Inr zs"
proof (induction xs arbitrary: acc)
  case Nil
  show ?case by simp
next
  case (Cons x xs)
  obtain zs where "insert_js (\<lambda>a b. naturalSort h (Str a) (Str b)) x acc = Inr zs"
    using insert_js_strings by blast
  then show ?case
    using Cons.IH [of zs] by simp
qed

lemma sort_strings_returns: "\<exists>zs. sort_js (\<lambda>a b. naturalSort h (Str a) (Str b)) xs = Inr zs"
  by (simp add: sort_js_def sort_strings_from)

text \<open>
  Whatever a call of \<^verbatim>\<open>getFieldValues\<close> returns for a field, the next call for that field
  returns the same, also when a file has been loaded in between: a value that has been
  stored is never computed again.
\<close>

lemma getFieldValues_repeats:
  "fst (getFieldValues h f (handleFileSelect file parsed (snd (getFieldValues h f s))))
     = fst (getFieldValues h f s)"
proof (cases "cacheGet (fieldValuesCache s) f")
  case (Some cached)
  then have "getFieldValues h f s = (Inr cached, s)"
    by (simp add: getFieldValues_def)
  moreover have "cacheGet (fieldValuesCache (handleFileSelect file parsed s)) f = Some cached"
    using Some by (simp add: handleFileSelect_cache)
  ultimately show ?thesis
    by (simp only: snd_conv fst_conv) (simp add: getFieldValues_def)
next
  case None
  obtain sortedValues where
    sorted: "sort_js (\<lambda>a b. naturalSort h (Str a) (Str b)) (collectValues h f (records s))
             = Inr sortedValues"
    using sort_strings_returns by blast
  let ?s1 = "s\<lparr>fieldValuesCache := (fieldValuesCache s)(f \<mapsto> sortedValues)\<rparr>"
  have first: "getFieldValues h f s = (Inr (ValueList sortedValues), ?s1)"
    using None sorted by (simp add: getFieldValues_def)
  have plain: "f \<noteq> ''__proto__''"
    using None by (auto simp: cacheGet_def)
  have "cacheGet (fieldValuesCache (handleFileSelect file parsed ?s1)) f
      = Some (ValueList sortedValues)"
    using plain by (simp add: handleFileSelect_cache cacheGet_def)
  then have second: "getFieldValues h f (handleFileSelect file parsed ?s1) =
      (Inr (ValueList sortedValues), handleFileSelect file parsed ?s1)"
    by (simp add: getFieldValues_def)
  show ?thesis
    by (simp only: first snd_conv fst_conv second)
qed

text \<open>
  Claim C1 has the cache cleared when a new dataset replaces the record store, so that a
  call of \<^verbatim>\<open>getFieldValues\<close> after the load returns values of the new records only. The
  code never clears the cache. On the input below \<^verbatim>\<open>getFieldValues('Category')\<close> is called
  on a dataset whose only value is \<^verbatim>\<open>A\<close>, then \<^verbatim>\<open>handleFileSelect\<close> loads a dataset whose
  only value is \<^verbatim>\<open>B\<close>, which replaces the records, and the second call still returns
  \<^verbatim>\<open>[A]\<close>, where a state with the new records and no cached value gives \<^verbatim>\<open>[B]\<close>.
\<close>

theorem stale_field_values_after_reload:
  "fst (getFieldValues sampleHost ''Category''
     (handleFileSelect (Some ''second.xml'') (Inr ([[''Category'' \<mapsto> ''B'']], [''Category'']))
        (snd (getFieldValues sampleHost ''Category''
           \<lparr>database = Some ''first.xml'', fieldNames = [''Category''],
            records = [[''Category'' \<mapsto> ''A'']], filterGroups = [],
            fieldValuesCache = Map.empty\<rparr>)))) = Inr (ValueList [''A''])
   \<and> records (handleFileSelect (Some ''second.xml'') (Inr ([[''Category'' \<mapsto> ''B'']], [''Category'']))
        (snd (getFieldValues sampleHost ''Category''
           \<lparr>database = Some ''first.xml'', fieldNames = [''Category''],
            records = [[''Category'' \<mapsto> ''A'']], filterGroups = [],
            fieldValuesCache = Map.empty\<rparr>))) = [[''Category'' \<mapsto> ''B'']]
   \<and> fst (getFieldValues sampleHost ''Category''
       \<lparr>database = Some ''second.xml'', fieldNames = [''Category''],
        records = [[''Category'' \<mapsto> ''B'']], filterGroups = [],
        fieldValuesCache = Map.empty\<rparr>) = Inr (ValueList [''B''])"
  by (simp add: getFieldValues_def cacheGet_def handleFileSelect_def sort_js_def naturalSort_def
      collectValues_def set_add_def getProp_def objectPrototypeNames_def Let_def)

end
